theory Spec2Isabelle
  imports Complex_Main "HOL-Library.AList"
begin

section \<open>JavaScript values\<close>

text \<open>
  A JavaScript string is a sequence of UTF-16 code units, written here as a list of
  natural numbers. \<open>js\<close> turns an ASCII literal into such a string.
\<close>

type_synonym jsstring = "nat list"

definition js :: "string \<Rightarrow> jsstring" where
  "js s = map of_char s"

text \<open>
  A JavaScript number is a finite double, \<open>NaN\<close> or an infinity. The progress tracker
  only compares numbers, and the comparison of two finite doubles is the comparison of
  the real numbers they denote, so a finite number is carried as that real.
\<close>

datatype jsnum = Fin real | NaN | PosInf | NegInf

datatype jsval =
    JUndefined
  | JNull
  | JBool bool
  | JNum jsnum
  | JStr jsstring
  | JArr "jsval list"
  | JObj "(jsstring \<times> jsval) list"

text \<open>
  An object is the list of its own enumerable properties; an object has no two
  properties of one name. A property that is added goes to the end of the list
  (JavaScript lists integer-like keys first, in ascending order); nothing below depends
  on the order of enumeration.
\<close>

datatype jstype = TUndefined | TObject | TBoolean | TNumber | TString

fun typeof :: "jsval \<Rightarrow> jstype" where
  "typeof JUndefined = TUndefined"
| "typeof JNull = TObject"
| "typeof (JBool b) = TBoolean"
| "typeof (JNum n) = TNumber"
| "typeof (JStr s) = TString"
| "typeof (JArr xs) = TObject"
| "typeof (JObj ps) = TObject"

text \<open>\<open>truthy v\<close> is \<open>!!v\<close>.\<close>

fun truthy :: "jsval \<Rightarrow> bool" where
  "truthy JUndefined = False"
| "truthy JNull = False"
| "truthy (JBool b) = b"
| "truthy (JNum (Fin r)) = (r \<noteq> 0)"
| "truthy (JNum NaN) = False"
| "truthy (JNum PosInf) = True"
| "truthy (JNum NegInf) = True"
| "truthy (JStr s) = (s \<noteq> [])"
| "truthy (JArr xs) = True"
| "truthy (JObj ps) = True"

subsection \<open>Number to string, for integers\<close>

text \<open>
  \<open>numberKey i\<close> is the property key that the integer \<open>i\<close> becomes when it indexes an
  object: its decimal digits, with a minus sign when negative. JavaScript prints an
  integer this way as long as its magnitude is below \<open>10^21\<close>.
\<close>

fun digitsOf :: "nat \<Rightarrow> jsstring" where
  "digitsOf n = (if n < 10 then [48 + n] else digitsOf (n div 10) @ [48 + n mod 10])"

declare digitsOf.simps [simp del]

definition numberKey :: "int \<Rightarrow> jsstring" where
  "numberKey i = (if i < 0 then 45 # digitsOf (nat (- i)) else digitsOf (nat i))"

text \<open>
  \<open>Object.entries\<close>: the own enumerable properties of an object, the indexed elements of
  an array, the indexed code units of a string; nothing for the other primitives. Every
  caller below checks \<open>typeof\<close> and nullness before it enumerates.
\<close>

fun indexed :: "nat \<Rightarrow> 'a list \<Rightarrow> (jsstring \<times> 'a) list" where
  "indexed i [] = []"
| "indexed i (x # xs) = (digitsOf i, x) # indexed (Suc i) xs"

fun entries :: "jsval \<Rightarrow> (jsstring \<times> jsval) list" where
  "entries (JObj ps) = ps"
| "entries (JArr xs) = indexed 0 xs"
| "entries (JStr s) = indexed 0 (map (\<lambda>c. JStr [c]) s)"
| "entries v = []"

subsection \<open>parseInt\<close>

text \<open>
  \<open>parseInt(string)\<close> with no radix, as ECMAScript defines it: leading white space is
  skipped, a sign is read, a \<open>0x\<close> or \<open>0X\<close> prefix selects radix 16, and the longest
  prefix of digits is the value; with no digit the result is \<open>NaN\<close>, here \<open>None\<close>.
  The value is kept as the exact integer. A double this large is rounded, but the
  callers only test the result against \<open>0\<close>, \<open>1\<close> and a module count of at most
  \<open>5\<close>, and rounding moves no integer across those.
\<close>

definition isStrWhiteSpaceChar :: "nat \<Rightarrow> bool" where
  "isStrWhiteSpaceChar c =
     (c \<in> set [9, 10, 11, 12, 13, 32, 160, 5760, 8232, 8233, 8239, 8287, 12288, 65279]
      \<or> (8192 \<le> c \<and> c \<le> 8202))"

definition isDigit :: "nat \<Rightarrow> bool" where
  "isDigit c = (48 \<le> c \<and> c \<le> 57)"

definition digitValue :: "nat \<Rightarrow> nat option" where
  "digitValue c =
     (if 48 \<le> c \<and> c \<le> 57 then Some (c - 48)
      else if 97 \<le> c \<and> c \<le> 122 then Some (c - 87)
      else if 65 \<le> c \<and> c \<le> 90 then Some (c - 55)
      else None)"

definition radixDigit :: "nat \<Rightarrow> nat \<Rightarrow> nat option" where
  "radixDigit R c =
     (case digitValue c of
        None \<Rightarrow> None
      | Some d \<Rightarrow> if d < R then Some d else None)"

fun parseDigits :: "nat \<Rightarrow> nat \<Rightarrow> jsstring \<Rightarrow> nat" where
  "parseDigits R acc [] = acc"
| "parseDigits R acc (c # cs) =
     (case radixDigit R c of
        None \<Rightarrow> acc
      | Some d \<Rightarrow> parseDigits R (acc * R + d) cs)"

definition parseInt :: "jsstring \<Rightarrow> int option" where
  "parseInt inputString =
     (let S = dropWhile isStrWhiteSpaceChar inputString;
          sign = (if take 1 S = [45] then - 1 else 1);
          S1 = (if take 1 S = [43] \<or> take 1 S = [45] then drop 1 S else S);
          hex = (take 2 S1 = [48, 120] \<or> take 2 S1 = [48, 88]);
          R = (if hex then 16 else 10);
          S2 = (if hex then drop 2 S1 else S1)
      in case S2 of
           [] \<Rightarrow> None
         | c # cs \<Rightarrow>
             (case radixDigit R c of
                None \<Rightarrow> None
              | Some d \<Rightarrow> Some (sign * int (parseDigits R 0 S2))))"

section \<open>The progress tracker (progress.js)\<close>

text \<open>
  \<open>this.progress\<close> maps a mission key to an object that maps a module key to a
  completion timestamp. Every value that enters it under a mission key has passed
  \<open>typeof modules === 'object'\<close> and is not null, so the type holds the module
  properties directly. \<open>saveProgress\<close> and \<open>emit\<close> do not touch \<open>this.progress\<close> and are
  left out; \<open>Date.now()\<close> is the parameter \<open>now\<close>.

  An argument \<open>mission\<close> or \<open>module\<close> of a public method is used in two ways only:
  \<open>parseInt(mission)\<close> and \<open>this.progress[mission]\<close>. Both first convert the argument to
  a string, so an argument is carried as that string: the number \<open>3\<close> is \<open>js ''3''\<close>, the
  number \<open>3.5\<close> is \<open>js ''3.5''\<close>. The argument \<open>completed\<close> is read for its truthiness
  only and is a boolean here.
\<close>

type_synonym modules = "(jsstring \<times> jsval) list"
type_synonym progress = "(jsstring \<times> modules) list"

definition totalMissions :: int where
  "totalMissions = 5"

definition modulesPerMission :: "(jsstring \<times> int) list" where
  "modulesPerMission = [(js ''1'', 3), (js ''2'', 3), (js ''3'', 3), (js ''4'', 4), (js ''5'', 3)]"

text \<open>\<open>!n || n < 1 || n > max\<close> for a \<open>parseInt\<close> result \<open>n\<close>; \<open>max\<close> may be undefined.\<close>

definition outOfRange :: "int option \<Rightarrow> int option \<Rightarrow> bool" where
  "outOfRange n maxN =
     (case n of
        None \<Rightarrow> True
      | Some k \<Rightarrow> k = 0 \<or> k < 1 \<or> (case maxN of None \<Rightarrow> False | Some mx \<Rightarrow> k > mx))"

text \<open>\<open>new Date('2020-01-01').getTime()\<close>\<close>

definition minimumDate :: real where
  "minimumDate = 1577836800000"

fun isValidTimestamp :: "int \<Rightarrow> jsval \<Rightarrow> bool" where
  "isValidTimestamp now (JNum (Fin t)) = (t > 0 \<and> t \<le> real_of_int now \<and> t > minimumDate)"
| "isValidTimestamp now (JNum NaN) = False"
| "isValidTimestamp now (JNum PosInf) = False"
| "isValidTimestamp now (JNum NegInf) = False"
| "isValidTimestamp now v = False"

fun validModuleEntries :: "int \<Rightarrow> int option \<Rightarrow> (jsstring \<times> jsval) list \<Rightarrow> bool" where
  "validModuleEntries now maxModules [] = True"
| "validModuleEntries now maxModules ((moduleStr, timestamp) # rest) =
     (if outOfRange (parseInt moduleStr) maxModules then False
      else if \<not> isValidTimestamp now timestamp then False
      else validModuleEntries now maxModules rest)"

fun validMissionEntries :: "int \<Rightarrow> (jsstring \<times> jsval) list \<Rightarrow> bool" where
  "validMissionEntries now [] = True"
| "validMissionEntries now ((missionStr, modules) # rest) =
     (case parseInt missionStr of
        None \<Rightarrow> False
      | Some mission \<Rightarrow>
          if outOfRange (Some mission) (Some totalMissions) then False
          else if \<not> truthy modules \<or> typeof modules \<noteq> TObject then False
          else if \<not> validModuleEntries now (map_of modulesPerMission (numberKey mission))
                      (entries modules) then False
          else validMissionEntries now rest)"

definition isValidProgressData :: "int \<Rightarrow> jsval \<Rightarrow> bool" where
  "isValidProgressData now data =
     (if \<not> truthy data \<or> typeof data \<noteq> TObject then False
      else validMissionEntries now (entries data))"

text \<open>
  \<open>this.progress = parsed\<close> and \<open>this.progress = { ...progressData }\<close>: the validated
  value as a progress record.
\<close>

definition asProgress :: "jsval \<Rightarrow> progress" where
  "asProgress data = map (\<lambda>(k, v). (k, entries v)) (entries data)"

definition asValue :: "progress \<Rightarrow> jsval" where
  "asValue p = JObj (map (\<lambda>(k, ms). (k, JObj ms)) p)"

subsection \<open>Validation helpers\<close>

definition isValidMission :: "jsstring \<Rightarrow> bool" where
  "isValidMission mission =
     (case parseInt mission of
        None \<Rightarrow> False
      | Some missionNum \<Rightarrow> missionNum \<ge> 1 \<and> missionNum \<le> totalMissions)"

definition isValidMissionModule :: "jsstring \<Rightarrow> jsstring \<Rightarrow> bool" where
  "isValidMissionModule mission modul =
     (if \<not> isValidMission mission then False
      else
        (case (parseInt mission, parseInt modul) of
           (Some missionNum, Some moduleNum) \<Rightarrow>
             (case map_of modulesPerMission (numberKey missionNum) of
                None \<Rightarrow> False
              | Some maxModules \<Rightarrow> moduleNum \<ge> 1 \<and> moduleNum \<le> maxModules)
         | _ \<Rightarrow> False))"

subsection \<open>Completion\<close>

definition setModuleCompletion ::
  "int \<Rightarrow> jsstring \<Rightarrow> jsstring \<Rightarrow> bool \<Rightarrow> progress \<Rightarrow> bool \<times> progress" where
  "setModuleCompletion now mission modul completed p =
     (if \<not> isValidMissionModule mission modul then (False, p)
      else if completed then
        (case map_of p mission of
           None \<Rightarrow>
             (True, AList.update mission [(modul, JNum (Fin (real_of_int now)))] p)
         | Some ms \<Rightarrow>
             (True, AList.update mission
                      (AList.update modul (JNum (Fin (real_of_int now))) ms) p))
      else
        (case map_of p mission of
           None \<Rightarrow> (True, p)
         | Some ms \<Rightarrow>
             (let ms' = AList.delete modul ms in
              if ms' = [] then (True, AList.delete mission p)
              else (True, AList.update mission ms' p))))"

definition isModuleComplete :: "progress \<Rightarrow> jsstring \<Rightarrow> jsstring \<Rightarrow> bool" where
  "isModuleComplete p mission modul =
     (if \<not> isValidMissionModule mission modul then False
      else
        (case map_of p mission of
           None \<Rightarrow> False
         | Some ms \<Rightarrow> (case map_of ms modul of None \<Rightarrow> False | Some v \<Rightarrow> truthy v)))"

text \<open>
  The loop \<open>for (let module = 1; module <= maxModules; module++)\<close> of \<open>isMissionComplete\<close>,
  entered at \<open>module\<close>. With \<open>maxModules\<close> undefined the test \<open>module <= maxModules\<close> is
  false at once.
\<close>

function modulesCompleteFrom :: "progress \<Rightarrow> jsstring \<Rightarrow> int \<Rightarrow> int option \<Rightarrow> bool" where
  "modulesCompleteFrom p mission modul maxModules =
     (case maxModules of
        None \<Rightarrow> True
      | Some mx \<Rightarrow>
          if modul \<le> mx then
            (if \<not> isModuleComplete p mission (numberKey modul) then False
             else modulesCompleteFrom p mission (modul + 1) maxModules)
          else True)"
  by pat_completeness auto
termination
  by (relation "measure (\<lambda>(p, mission, modul, maxModules).
        case maxModules of None \<Rightarrow> 0 | Some mx \<Rightarrow> nat (mx + 1 - modul))") auto

declare modulesCompleteFrom.simps [simp del]

definition isMissionComplete :: "progress \<Rightarrow> jsstring \<Rightarrow> bool" where
  "isMissionComplete p mission =
     (if \<not> isValidMission mission then False
      else modulesCompleteFrom p mission 1 (map_of modulesPerMission mission))"

text \<open>
  \<open>getNextRecommendedModule\<close>: the inner loop over the modules of one mission, entered at
  \<open>modul\<close>, and the outer loop over the missions, entered at \<open>mission\<close>. \<open>None\<close> is the
  loop running to its end (and \<open>null\<close> for the method).
\<close>

function firstIncompleteFrom :: "progress \<Rightarrow> int \<Rightarrow> int \<Rightarrow> int option \<Rightarrow> (int \<times> int) option" where
  "firstIncompleteFrom p mission modul maxModules =
     (case maxModules of
        None \<Rightarrow> None
      | Some mx \<Rightarrow>
          if modul \<le> mx then
            (if \<not> isModuleComplete p (numberKey mission) (numberKey modul)
             then Some (mission, modul)
             else firstIncompleteFrom p mission (modul + 1) maxModules)
          else None)"
  by pat_completeness auto
termination
  by (relation "measure (\<lambda>(p, mission, modul, maxModules).
        case maxModules of None \<Rightarrow> 0 | Some mx \<Rightarrow> nat (mx + 1 - modul))") auto

declare firstIncompleteFrom.simps [simp del]

function recommendFrom :: "progress \<Rightarrow> int \<Rightarrow> (int \<times> int) option" where
  "recommendFrom p mission =
     (if mission \<le> totalMissions then
        (case firstIncompleteFrom p mission 1 (map_of modulesPerMission (numberKey mission)) of
           Some found \<Rightarrow> Some found
         | None \<Rightarrow> recommendFrom p (mission + 1))
      else None)"
  by pat_completeness auto
termination
  by (relation "measure (\<lambda>(p, mission). nat (totalMissions + 1 - mission))") auto

declare recommendFrom.simps [simp del]

definition getNextRecommendedModule :: "progress \<Rightarrow> (int \<times> int) option" where
  "getNextRecommendedModule p = recommendFrom p 1"

subsection \<open>Reset, import, export\<close>

definition resetProgress :: "bool \<Rightarrow> progress \<Rightarrow> bool \<times> progress" where
  "resetProgress confirm p = (if \<not> confirm then (False, p) else (True, []))"

definition importProgress :: "int \<Rightarrow> jsval \<Rightarrow> progress \<Rightarrow> bool \<times> progress" where
  "importProgress now progressData p =
     (if \<not> isValidProgressData now progressData then (False, p)
      else (True, asProgress progressData))"

definition exportProgress :: "int \<Rightarrow> progress \<Rightarrow> jsval" where
  "exportProgress now p =
     JObj [(js ''data'', asValue p),
           (js ''exportedAt'', JNum (Fin (real_of_int now))),
           (js ''version'', JStr (js ''1.0''))]"

subsection \<open>Load and cleanup\<close>

text \<open>
  What \<open>localStorage.getItem\<close> hands to \<open>loadProgress\<close>: nothing (\<open>null\<close> or the empty
  string), a string that \<open>JSON.parse\<close> rejects, or a string that parses to a value. It is the
  item as it was stored. app.js assigns a filtering function to \<open>localStorage.getItem\<close>, but
  on a \<open>Storage\<close> object such an assignment goes to the named-property setter and stores an
  item called \<open>getItem\<close>; the method that \<open>loadProgress\<close> calls stays the built-in one.
\<close>

datatype item = Absent | Unparsable | Parsed jsval

definition loadProgress :: "int \<Rightarrow> item \<Rightarrow> progress \<Rightarrow> progress" where
  "loadProgress now stored p =
     (case stored of
        Absent \<Rightarrow> p
      | Unparsable \<Rightarrow> []
      | Parsed parsed \<Rightarrow> if isValidProgressData now parsed then asProgress parsed else [])"

text \<open>
  \<open>validateProgress\<close> walks a snapshot of the entries and deletes from the live objects.
\<close>

fun cleanModules :: "int \<Rightarrow> int option \<Rightarrow> (jsstring \<times> jsval) list \<Rightarrow> modules \<Rightarrow> modules" where
  "cleanModules now maxModules [] ms = ms"
| "cleanModules now maxModules ((moduleStr, timestamp) # rest) ms =
     (if outOfRange (parseInt moduleStr) maxModules \<or> \<not> isValidTimestamp now timestamp
      then cleanModules now maxModules rest (AList.delete moduleStr ms)
      else cleanModules now maxModules rest ms)"

fun cleanMissions :: "int \<Rightarrow> (jsstring \<times> modules) list \<Rightarrow> progress \<Rightarrow> progress" where
  "cleanMissions now [] p = p"
| "cleanMissions now ((missionStr, ms) # rest) p =
     (case parseInt missionStr of
        None \<Rightarrow> cleanMissions now rest (AList.delete missionStr p)
      | Some mission \<Rightarrow>
          if outOfRange (Some mission) (Some totalMissions)
          then cleanMissions now rest (AList.delete missionStr p)
          else
            (let ms' = cleanModules now (map_of modulesPerMission (numberKey mission)) ms ms in
             if ms' = [] then cleanMissions now rest (AList.delete missionStr p)
             else cleanMissions now rest (AList.update missionStr ms' p)))"

definition validateProgress :: "int \<Rightarrow> progress \<Rightarrow> progress" where
  "validateProgress now p = cleanMissions now p p"

definition init :: "int \<Rightarrow> item \<Rightarrow> progress \<Rightarrow> progress" where
  "init now stored p = validateProgress now (loadProgress now stored p)"

section \<open>The sanitizer (content.js)\<close>

text \<open>
  \<open>sanitizeHTML\<close> works on the tree that the browser parses from the fragment and returns
  the serialisation of what is left; parsing and serialising are the browser's, so the
  tree is the input and the output here. An element has a tag name, its attributes in
  the order of \<open>el.attributes\<close>, and its children. A \<open>template\<close> element has no children: the
  parser puts what is written inside it into its content fragment, which
  \<open>querySelectorAll\<close> does not enter and which \<open>innerHTML\<close> writes out again.
\<close>

datatype node =
    Element string "(string \<times> string) list" "node list"
  | Template "(string \<times> string) list" "node list"
  | Text string

definition dangerousTags :: "string list" where
  "dangerousTags = [''script'', ''object'', ''embed'', ''iframe'']"

fun matchesDangerous :: "node \<Rightarrow> bool" where
  "matchesDangerous (Element tag attrs children) = (tag \<in> set dangerousTags)"
| "matchesDangerous (Template attrs contents) = False"
| "matchesDangerous (Text t) = False"

text \<open>
  \<open>querySelectorAll('script, object, embed, iframe')\<close> with \<open>remove()\<close> on each match: every
  matching descendant leaves the tree, with all that is under it.
\<close>

fun removeDangerous :: "node \<Rightarrow> node" where
  "removeDangerous (Element tag attrs children) =
     Element tag attrs (map removeDangerous (filter (\<lambda>c. \<not> matchesDangerous c) children))"
| "removeDangerous (Template attrs contents) = Template attrs contents"
| "removeDangerous (Text t) = Text t"

text \<open>\<open>el.removeAttribute(name)\<close>: the first attribute of that name goes.\<close>

fun removeAttribute :: "string \<Rightarrow> (string \<times> string) list \<Rightarrow> (string \<times> string) list" where
  "removeAttribute name [] = []"
| "removeAttribute name (a # attrs) =
     (if fst a = name then attrs else a # removeAttribute name attrs)"

lemma length_removeAttribute: "length (removeAttribute name attrs) \<le> length attrs"
  by (induction attrs) auto

text \<open>
  \<open>for (const attr of el.attributes)\<close>: \<open>el.attributes\<close> is a live collection, and the
  iterator reads position \<open>i\<close> of it as it is at that moment, then moves to \<open>i + 1\<close>.
\<close>

function stripOnAttributes :: "nat \<Rightarrow> (string \<times> string) list \<Rightarrow> (string \<times> string) list" where
  "stripOnAttributes i attrs =
     (if i < length attrs then
        (if take 2 (fst (attrs ! i)) = ''on''
         then stripOnAttributes (i + 1) (removeAttribute (fst (attrs ! i)) attrs)
         else stripOnAttributes (i + 1) attrs)
      else attrs)"
  by pat_completeness auto
termination
proof (relation "measure (\<lambda>(i, attrs). length attrs - i)")
  show "wf (measure (\<lambda>(i, attrs). length attrs - i))"
    by simp
next
  fix i :: nat and attrs :: "(string \<times> string) list"
  assume "i < length attrs"
  moreover have "length (removeAttribute (fst (attrs ! i)) attrs) \<le> length attrs"
    by (rule length_removeAttribute)
  ultimately show "((i + 1, removeAttribute (fst (attrs ! i)) attrs), (i, attrs))
      \<in> measure (\<lambda>(i, attrs). length attrs - i)"
    by simp
next
  fix i :: nat and attrs :: "(string \<times> string) list"
  assume "i < length attrs"
  then show "((i + 1, attrs), (i, attrs)) \<in> measure (\<lambda>(i, attrs). length attrs - i)"
    by simp
qed

declare stripOnAttributes.simps [simp del]

text \<open>\<open>querySelectorAll('*')\<close> with the attribute loop on each element.\<close>

fun stripElements :: "node \<Rightarrow> node" where
  "stripElements (Element tag attrs children) =
     Element tag (stripOnAttributes 0 attrs) (map stripElements children)"
| "stripElements (Template attrs contents) = Template (stripOnAttributes 0 attrs) contents"
| "stripElements (Text t) = Text t"

definition sanitizeHTML :: "node list \<Rightarrow> node list" where
  "sanitizeHTML html =
     map stripElements (map removeDangerous (filter (\<lambda>c. \<not> matchesDangerous c) html))"

section \<open>The router (router.js)\<close>

text \<open>
  \<open>currentPage\<close> is a page name or \<open>module-m-n\<close>. \<open>showModule\<close> ends by setting it; the
  rendering before that is left out.
\<close>

datatype route = Page string | ModuleRoute int int

definition showModule :: "int \<Rightarrow> int \<Rightarrow> route \<Rightarrow> route" where
  "showModule mission modul currentPage = ModuleRoute mission modul"

definition navigateModule :: "int \<Rightarrow> int \<Rightarrow> int \<Rightarrow> route \<Rightarrow> route" where
  "navigateModule currentMission currentModule direction currentPage =
     (let moduleCount = (if currentMission = 4 then 4 else 3);
          (nextMission, nextModule) =
            (if currentModule + direction > moduleCount then (currentMission + 1, 1)
             else if currentModule + direction < 1
             then (currentMission - 1, if currentMission - 1 = 4 then 4 else 3)
             else (currentMission, currentModule + direction))
      in if nextMission < 1 \<or> nextMission > 5 then currentPage
         else showModule nextMission nextModule currentPage)"

section \<open>The curriculum shape\<close>

text \<open>
  Five missions; mission \<open>i\<close> has 3, 3, 3, 4, 3 modules. The properties below are stated
  against this shape; the code has it twice, as the table \<open>modulesPerMission\<close> of the
  tracker and as \<open>mission === 4 ? 4 : 3\<close> in the router and in app.js.
\<close>

definition moduleCount :: "int \<Rightarrow> int" where
  "moduleCount m = (if m = 4 then 4 else 3)"

definition inBounds :: "int \<Rightarrow> int \<Rightarrow> bool" where
  "inBounds m n = (1 \<le> m \<and> m \<le> 5 \<and> 1 \<le> n \<and> n \<le> moduleCount m)"

section \<open>Example records\<close>

text \<open>Modules 1, 2 and 3 of mission 4 complete, and nothing else.\<close>

definition three :: progress where
  "three = [(js ''4'', [(js ''1'', JNum (Fin 1600000000001)), (js ''2'', JNum (Fin 1600000000002)),
                        (js ''3'', JNum (Fin 1600000000003))])]"

text \<open>All sixteen modules complete.\<close>

definition allDone :: progress where
  "allDone =
     [(js ''1'', [(js ''1'', JNum (Fin 1600000000000)), (js ''2'', JNum (Fin 1600000000000)),
                  (js ''3'', JNum (Fin 1600000000000))]),
      (js ''2'', [(js ''1'', JNum (Fin 1600000000000)), (js ''2'', JNum (Fin 1600000000000)),
                  (js ''3'', JNum (Fin 1600000000000))]),
      (js ''3'', [(js ''1'', JNum (Fin 1600000000000)), (js ''2'', JNum (Fin 1600000000000)),
                  (js ''3'', JNum (Fin 1600000000000))]),
      (js ''4'', [(js ''1'', JNum (Fin 1600000000000)), (js ''2'', JNum (Fin 1600000000000)),
                  (js ''3'', JNum (Fin 1600000000000)), (js ''4'', JNum (Fin 1600000000000))]),
      (js ''5'', [(js ''1'', JNum (Fin 1600000000000)), (js ''2'', JNum (Fin 1600000000000)),
                  (js ''3'', JNum (Fin 1600000000000))])]"

section \<open>Violations as parseInt reads the keys\<close>

text \<open>
  The specification's validation algorithm: each mission key, parsed as an integer, lies in
  [1,5]; each module key under it, parsed as an integer, lies in [1, moduleCount mission];
  each timestamp is a positive number not exceeding now and not earlier than the floor
  date. A candidate record has a violation when one of its entries fails one of these.
\<close>

definition missionKeyOutside :: "jsstring \<Rightarrow> bool" where
  "missionKeyOutside missionKey =
     (case parseInt missionKey of None \<Rightarrow> True | Some m \<Rightarrow> m < 1 \<or> 5 < m)"

definition moduleKeyOutside :: "jsstring \<Rightarrow> jsstring \<Rightarrow> bool" where
  "moduleKeyOutside missionKey moduleKey =
     (case parseInt missionKey of
        None \<Rightarrow> True
      | Some m \<Rightarrow>
          (case parseInt moduleKey of None \<Rightarrow> True | Some n \<Rightarrow> n < 1 \<or> moduleCount m < n))"

fun timestampAcceptable :: "int \<Rightarrow> jsval \<Rightarrow> bool" where
  "timestampAcceptable now (JNum (Fin t)) = (0 < t \<and> t \<le> real_of_int now \<and> minimumDate \<le> t)"
| "timestampAcceptable now v = False"

definition violation :: "int \<Rightarrow> jsval \<Rightarrow> bool" where
  "violation now candidate =
     (\<exists>(missionKey, ms) \<in> set (entries candidate).
        missionKeyOutside missionKey
        \<or> (\<exists>(moduleKey, timestamp) \<in> set (entries ms).
              moduleKeyOutside missionKey moduleKey \<or> \<not> timestampAcceptable now timestamp))"

section \<open>Further notions used in the statements\<close>

text \<open>\<open>v[k]\<close> for an object \<open>v\<close>.\<close>

definition getProperty :: "jsval \<Rightarrow> jsstring \<Rightarrow> jsval" where
  "getProperty v k = (case map_of (entries v) k of None \<Rightarrow> JUndefined | Some x \<Rightarrow> x)"

text \<open>
  The invariants that the specification gives for the progress record: every mission key
  lies in 1..5 and every module key under it in 1..moduleCount mission (keys read as the
  validation reads them, by \<open>parseInt\<close>), every timestamp passes the timestamp-validity
  predicate, and no mission entry is without module entries.
\<close>

definition recordInvariant :: "int \<Rightarrow> progress \<Rightarrow> bool" where
  "recordInvariant now p =
     (\<forall>(missionKey, ms) \<in> set p.
        \<not> missionKeyOutside missionKey \<and> ms \<noteq> []
        \<and> (\<forall>(moduleKey, timestamp) \<in> set ms.
              \<not> moduleKeyOutside missionKey moduleKey \<and> isValidTimestamp now timestamp))"

text \<open>
  The tree of \<^verbatim>\<open><img src="x" onerror="alert(1)" onload="alert(2)">\<close>, and what it
  means for a node to carry an attribute whose name begins with \<open>on\<close>, at any depth.
\<close>

definition twoHandlers :: "node list" where
  "twoHandlers =
     [Element ''img'' [(''src'', ''x''), (''onerror'', ''alert(1)''), (''onload'', ''alert(2)'')] []]"

fun hasOnAttribute :: "node \<Rightarrow> bool" where
  "hasOnAttribute (Element tag attrs children) =
     ((\<exists>a \<in> set attrs. take 2 (fst a) = ''on'') \<or> (\<exists>c \<in> set children. hasOnAttribute c))"
| "hasOnAttribute (Template attrs contents) =
     ((\<exists>a \<in> set attrs. take 2 (fst a) = ''on'') \<or> (\<exists>c \<in> set contents. hasOnAttribute c))"
| "hasOnAttribute (Text t) = False"

text \<open>
  A node that is, or has below it, one of the elements the sanitizer removes:
  \<open>containsDangerous\<close> anywhere in what is written out, \<open>dangerousOutsideTemplates\<close> without
  looking into the contents of a \<open>template\<close>.
\<close>

fun containsDangerous :: "node \<Rightarrow> bool" where
  "containsDangerous (Element tag attrs children) =
     (tag \<in> set dangerousTags \<or> (\<exists>c \<in> set children. containsDangerous c))"
| "containsDangerous (Template attrs contents) = (\<exists>c \<in> set contents. containsDangerous c)"
| "containsDangerous (Text t) = False"

fun dangerousOutsideTemplates :: "node \<Rightarrow> bool" where
  "dangerousOutsideTemplates (Element tag attrs children) =
     (tag \<in> set dangerousTags \<or> (\<exists>c \<in> set children. dangerousOutsideTemplates c))"
| "dangerousOutsideTemplates (Template attrs contents) = False"
| "dangerousOutsideTemplates (Text t) = False"

text \<open>
  The keys that are mission numbers, and the keys that are module numbers of a mission:
  the numbers 1..5 and 1..moduleCount mission as JavaScript writes them.
\<close>

definition missionKeys :: "jsstring list" where
  "missionKeys = map numberKey [1, 2, 3, 4, 5]"

definition moduleKeys :: "int \<Rightarrow> jsstring list" where
  "moduleKeys m = map numberKey [1..moduleCount m]"

text \<open>
  A stored item for mission 1: module 1 completed at a valid time, and an entry for
  module 9, which mission 1 does not have. And another: module 1 as before, and module 2
  with a timestamp later than the time of loading used below.
\<close>

definition withModuleNine :: jsval where
  "withModuleNine =
     JObj [(js ''1'', JObj [(js ''1'', JNum (Fin 1600000000000)),
                            (js ''9'', JNum (Fin 1600000000000))])]"

definition withFutureTimestamp :: jsval where
  "withFutureTimestamp =
     JObj [(js ''1'', JObj [(js ''1'', JNum (Fin 1600000000000)),
                            (js ''2'', JNum (Fin 1800000000000))])]"

section \<open>Keys and numbers\<close>

text \<open>
  An integer that is printed as a key and read back by \<open>parseInt\<close> is the same integer.
\<close>

lemma digitsOf_digits: "list_all isDigit (digitsOf n)"
proof (induction n rule: digitsOf.induct)
  case (1 n)
  show ?case
  proof (cases "n < 10")
    case True
    then show ?thesis by (simp add: digitsOf.simps [of n] isDigit_def)
  next
    case False
    have "n mod 10 < 10" by simp
    then have "isDigit (48 + n mod 10)" unfolding isDigit_def by linarith
    with False 1 show ?thesis by (simp add: digitsOf.simps [of n])
  qed
qed

lemma digitsOf_nonempty: "digitsOf n \<noteq> []"
  by (subst digitsOf.simps) simp

lemma radixDigit_digit: "isDigit c \<Longrightarrow> radixDigit 10 c = Some (c - 48)"
  by (auto simp: radixDigit_def digitValue_def isDigit_def)

lemma parseDigits_append:
  "list_all isDigit xs \<Longrightarrow>
   parseDigits 10 acc (xs @ ys) = parseDigits 10 (parseDigits 10 acc xs) ys"
  by (induction xs arbitrary: acc) (simp_all add: radixDigit_digit)

lemma parseDigits_digitsOf: "parseDigits 10 acc (digitsOf n) = acc * 10 ^ length (digitsOf n) + n"
proof (induction n arbitrary: acc rule: digitsOf.induct)
  case (1 n)
  show ?case
  proof (cases "n < 10")
    case True
    then have "isDigit (48 + n)" by (simp add: isDigit_def)
    with True show ?thesis by (simp add: digitsOf.simps [of n] radixDigit_digit)
  next
    case False
    have d: "isDigit (48 + n mod 10)" unfolding isDigit_def by (simp; linarith)
    have "parseDigits 10 acc (digitsOf n) =
          parseDigits 10 (parseDigits 10 acc (digitsOf (n div 10))) [48 + n mod 10]"
      using False by (simp add: digitsOf.simps [of n] parseDigits_append digitsOf_digits)
    also have "\<dots> = (acc * 10 ^ length (digitsOf (n div 10)) + n div 10) * 10 + n mod 10"
      using 1 [OF False] d by (simp add: radixDigit_digit)
    also have "\<dots> = acc * 10 ^ length (digitsOf n) + n"
      using False by (simp add: digitsOf.simps [of n] algebra_simps)
    finally show ?thesis .
  qed
qed

lemma not_white_digit: "isDigit c \<Longrightarrow> \<not> isStrWhiteSpaceChar c"
  by (auto simp: isDigit_def isStrWhiteSpaceChar_def)

lemma parseInt_digits:
  assumes "list_all isDigit ds" "ds \<noteq> []"
  shows "parseInt ds = Some (int (parseDigits 10 0 ds))"
proof -
  from assms obtain d rest where ds: "ds = d # rest" and d: "isDigit d" and r: "list_all isDigit rest"
    by (cases ds) auto
  have nothex: "take 2 ds \<noteq> [48, 120]" "take 2 ds \<noteq> [48, 88]"
    using r ds by (cases rest; auto simp: isDigit_def)+
  have nosign: "take 1 ds \<noteq> [43]" "take 1 ds \<noteq> [45]"
    using d ds by (auto simp: isDigit_def)
  have dw: "dropWhile isStrWhiteSpaceChar ds = ds"
    using d ds by (simp add: not_white_digit)
  have "parseInt ds =
        (case ds of [] \<Rightarrow> None
         | c # cs \<Rightarrow> (case radixDigit 10 c of None \<Rightarrow> None
             | Some d \<Rightarrow> Some (1 * int (parseDigits 10 0 ds))))"
    unfolding parseInt_def Let_def dw by (simp only: nothex nosign simp_thms if_False)
  then show ?thesis
    using d by (simp add: ds radixDigit_digit)
qed

lemma parseInt_minus_digits:
  assumes "list_all isDigit ds" "ds \<noteq> []"
  shows "parseInt (45 # ds) = Some (- int (parseDigits 10 0 ds))"
proof -
  from assms obtain d rest where ds: "ds = d # rest" and d: "isDigit d" and r: "list_all isDigit rest"
    by (cases ds) auto
  have nothex: "take 2 ds \<noteq> [48, 120]" "take 2 ds \<noteq> [48, 88]"
    using r ds by (cases rest; auto simp: isDigit_def)+
  have dw: "dropWhile isStrWhiteSpaceChar (45 # ds) = 45 # ds"
    by (simp add: isStrWhiteSpaceChar_def)
  have sg: "take 1 (45 # ds) = [45]" "drop 1 (45 # ds) = ds"
    by simp_all
  have "parseInt (45 # ds) =
        (case ds of [] \<Rightarrow> None
         | c # cs \<Rightarrow> (case radixDigit 10 c of None \<Rightarrow> None
             | Some d \<Rightarrow> Some (- 1 * int (parseDigits 10 0 ds))))"
    unfolding parseInt_def Let_def dw sg by (simp only: nothex simp_thms if_False if_True)
  then show ?thesis
    using d by (simp add: ds radixDigit_digit)
qed

lemma parseInt_numberKey: "parseInt (numberKey i) = Some i"
proof (cases "i < 0")
  case True
  then show ?thesis
    by (simp add: numberKey_def parseInt_minus_digits digitsOf_digits digitsOf_nonempty
        parseDigits_digitsOf)
next
  case False
  then show ?thesis
    by (simp add: numberKey_def parseInt_digits digitsOf_digits digitsOf_nonempty
        parseDigits_digitsOf)
qed

lemma numberKey_inj: "numberKey i = numberKey j \<Longrightarrow> i = j"
  by (metis parseInt_numberKey option.inject)


section \<open>Completion of a module\<close>

lemma maxModules_numberKey:
  assumes "1 \<le> m" "m \<le> 5"
  shows "map_of modulesPerMission (numberKey m) = Some (moduleCount m)"
proof -
  from assms consider "m = 1" | "m = 2" | "m = 3" | "m = 4" | "m = 5"
    by linarith
  then show ?thesis
    by cases
      (simp_all add: modulesPerMission_def numberKey_def digitsOf.simps js_def moduleCount_def)
qed

lemma isValidMission_numberKey: "isValidMission (numberKey m) = (1 \<le> m \<and> m \<le> 5)"
  by (simp add: isValidMission_def parseInt_numberKey totalMissions_def)

lemma isValidMissionModule_numberKey:
  "isValidMissionModule (numberKey m) (numberKey n) = inBounds m n"
  by (auto simp: isValidMissionModule_def isValidMission_numberKey parseInt_numberKey
      maxModules_numberKey inBounds_def)

lemma isModuleComplete_set_True:
  assumes "isValidMissionModule m n"
  shows "isModuleComplete (snd (setModuleCompletion now m n True p)) m' n' =
         (if m' = m \<and> n' = n then now \<noteq> 0 else isModuleComplete p m' n')"
  using assms
  by (auto simp: setModuleCompletion_def isModuleComplete_def update_conv'
      split: option.splits)

lemma map_of_delete_Nil:
  assumes "AList.delete n ms = []" "n' \<noteq> n"
  shows "map_of ms n' = None"
proof -
  have "map_of (AList.delete n ms) n' = ((map_of ms)(n := None)) n'"
    by (simp only: delete_conv')
  with assms show ?thesis by simp
qed

lemma isModuleComplete_set_False:
  assumes "isValidMissionModule m n"
  shows "isModuleComplete (snd (setModuleCompletion now m n False p)) m' n' =
         (if m' = m \<and> n' = n then False else isModuleComplete p m' n')"
proof (cases "map_of p m")
  case None
  with assms show ?thesis
    by (simp add: setModuleCompletion_def isModuleComplete_def)
next
  case (Some ms)
  show ?thesis
  proof (cases "AList.delete n ms = []")
    case True
    with Some assms show ?thesis
      by (auto simp: setModuleCompletion_def isModuleComplete_def delete_conv'
          map_of_delete_Nil split: option.splits)
  next
    case False
    with Some assms show ?thesis
      by (auto simp: setModuleCompletion_def isModuleComplete_def update_conv' delete_conv'
          split: option.splits)
  qed
qed

text \<open>
  C7. For every mission \<open>m\<close> in 1..5 and module \<open>n\<close> in 1..moduleCount m, from every progress
  record: after \<open>setModuleCompletion(m, n, true)\<close> the call \<open>isModuleComplete(m, n)\<close> returns
  true, and after \<open>setModuleCompletion(m, n, false)\<close> it returns false. The clock reads a
  time after the epoch (\<open>Date.now()\<close> is positive).
\<close>

theorem setCompletion_then_isModuleComplete:
  assumes "1 \<le> m" "m \<le> 5" "1 \<le> n" "n \<le> moduleCount m" "0 < now"
  shows "isModuleComplete (snd (setModuleCompletion now (numberKey m) (numberKey n) True p))
           (numberKey m) (numberKey n)
       \<and> \<not> isModuleComplete (snd (setModuleCompletion now (numberKey m) (numberKey n) False p))
           (numberKey m) (numberKey n)"
proof -
  have v: "isValidMissionModule (numberKey m) (numberKey n)"
    using assms by (simp add: isValidMissionModule_numberKey inBounds_def)
  show ?thesis
    using assms(5) by (simp add: isModuleComplete_set_True [OF v] isModuleComplete_set_False [OF v])
qed

theorem setCompletion_then_isModuleComplete_witness:
  "(1::int) \<le> 4 \<and> (4::int) \<le> 5 \<and> (1::int) \<le> 4 \<and> 4 \<le> moduleCount 4 \<and> (0::int) < 1700000000000
   \<and> isModuleComplete
        (snd (setModuleCompletion 1700000000000 (numberKey 4) (numberKey 4) True
               [(js ''4'', [(js ''4'', JNum (Fin 1600000000000))])]))
        (numberKey 4) (numberKey 4)
   \<and> \<not> isModuleComplete
        (snd (setModuleCompletion 1700000000000 (numberKey 4) (numberKey 4) False
               [(js ''4'', [(js ''4'', JNum (Fin 1600000000000))])]))
        (numberKey 4) (numberKey 4)"
  using setCompletion_then_isModuleComplete
    [of 4 4 1700000000000 "[(js ''4'', [(js ''4'', JNum (Fin 1600000000000))])]"]
  by (simp add: moduleCount_def)

section \<open>Completion of a mission\<close>

lemma modulesCompleteFrom_iff:
  "modulesCompleteFrom p mission k maxModules \<longleftrightarrow>
   (case maxModules of
      None \<Rightarrow> True
    | Some mx \<Rightarrow> \<forall>n. k \<le> n \<and> n \<le> mx \<longrightarrow> isModuleComplete p mission (numberKey n))"
proof (induction p mission k maxModules rule: modulesCompleteFrom.induct)
  case (1 p mission k maxModules)
  show ?case
  proof (cases maxModules)
    case None
    then show ?thesis by (simp add: modulesCompleteFrom.simps)
  next
    case (Some mx)
    show ?thesis
    proof (cases "k \<le> mx")
      case False
      with Some show ?thesis by (auto simp: modulesCompleteFrom.simps [of p mission k])
    next
      case True
      show ?thesis
      proof (cases "isModuleComplete p mission (numberKey k)")
        case False
        with True Some show ?thesis
          by (auto simp: modulesCompleteFrom.simps [of p mission k])
      next
        case c: True
        have "modulesCompleteFrom p mission k maxModules =
              modulesCompleteFrom p mission (k + 1) maxModules"
          using True Some c by (simp add: modulesCompleteFrom.simps [of p mission k])
        also have "\<dots> = (\<forall>n. k + 1 \<le> n \<and> n \<le> mx \<longrightarrow> isModuleComplete p mission (numberKey n))"
          using 1 [OF Some True] c Some by simp
        also have "\<dots> = (\<forall>n. k \<le> n \<and> n \<le> mx \<longrightarrow> isModuleComplete p mission (numberKey n))"
        proof
          assume h: "\<forall>n. k + 1 \<le> n \<and> n \<le> mx \<longrightarrow> isModuleComplete p mission (numberKey n)"
          show "\<forall>n. k \<le> n \<and> n \<le> mx \<longrightarrow> isModuleComplete p mission (numberKey n)"
          proof (intro allI impI)
            fix n assume "k \<le> n \<and> n \<le> mx"
            then consider "n = k" | "k + 1 \<le> n \<and> n \<le> mx" by linarith
            then show "isModuleComplete p mission (numberKey n)"
              using c h by cases auto
          qed
        next
          assume "\<forall>n. k \<le> n \<and> n \<le> mx \<longrightarrow> isModuleComplete p mission (numberKey n)"
          then show "\<forall>n. k + 1 \<le> n \<and> n \<le> mx \<longrightarrow> isModuleComplete p mission (numberKey n)"
            by auto
        qed
        finally show ?thesis using Some by simp
      qed
    qed
  qed
qed


lemma isMissionComplete_numberKey:
  assumes "1 \<le> m" "m \<le> 5"
  shows "isMissionComplete p (numberKey m) \<longleftrightarrow>
         (\<forall>n. 1 \<le> n \<and> n \<le> moduleCount m \<longrightarrow> isModuleComplete p (numberKey m) (numberKey n))"
  using assms
  by (simp add: isMissionComplete_def isValidMission_numberKey maxModules_numberKey
      modulesCompleteFrom_iff)

text \<open>
  C8. For every mission \<open>m\<close> in 1..5, \<open>isMissionComplete(m)\<close> returns true if and only if every
  module slot 1..moduleCount m of that mission is complete. In particular, from a record
  in which modules 1, 2, 3 of mission 4 are complete and module 4 is not, it returns false,
  and after \<open>setModuleCompletion(4, 4, true)\<close> (with the clock after the epoch) it returns
  true.
\<close>

theorem isMissionComplete_iff_every_module:
  "(1 \<le> m \<and> m \<le> 5 \<longrightarrow>
      (isMissionComplete p (numberKey m) \<longleftrightarrow>
       (\<forall>n. 1 \<le> n \<and> n \<le> moduleCount m \<longrightarrow> isModuleComplete p (numberKey m) (numberKey n))))
   \<and> (isModuleComplete q (numberKey 4) (numberKey 1)
        \<and> isModuleComplete q (numberKey 4) (numberKey 2)
        \<and> isModuleComplete q (numberKey 4) (numberKey 3)
        \<and> \<not> isModuleComplete q (numberKey 4) (numberKey 4)
        \<and> 0 < now \<longrightarrow>
      \<not> isMissionComplete q (numberKey 4)
      \<and> isMissionComplete (snd (setModuleCompletion now (numberKey 4) (numberKey 4) True q))
          (numberKey 4))"
proof (intro conjI impI)
  assume "1 \<le> m \<and> m \<le> 5"
  then show "isMissionComplete p (numberKey m) \<longleftrightarrow>
       (\<forall>n. 1 \<le> n \<and> n \<le> moduleCount m \<longrightarrow> isModuleComplete p (numberKey m) (numberKey n))"
    by (simp add: isMissionComplete_numberKey)
next
  assume a: "isModuleComplete q (numberKey 4) (numberKey 1)
        \<and> isModuleComplete q (numberKey 4) (numberKey 2)
        \<and> isModuleComplete q (numberKey 4) (numberKey 3)
        \<and> \<not> isModuleComplete q (numberKey 4) (numberKey 4)
        \<and> 0 < now"
  have "(4::int) \<le> moduleCount 4" by (simp add: moduleCount_def)
  with a show "\<not> isMissionComplete q (numberKey 4)"
    by (auto simp: isMissionComplete_numberKey intro!: exI [of _ 4])
next
  assume a: "isModuleComplete q (numberKey 4) (numberKey 1)
        \<and> isModuleComplete q (numberKey 4) (numberKey 2)
        \<and> isModuleComplete q (numberKey 4) (numberKey 3)
        \<and> \<not> isModuleComplete q (numberKey 4) (numberKey 4)
        \<and> 0 < now"
  have v: "isValidMissionModule (numberKey 4) (numberKey 4)"
    by (simp add: isValidMissionModule_numberKey inBounds_def moduleCount_def)
  have "isModuleComplete (snd (setModuleCompletion now (numberKey 4) (numberKey 4) True q))
          (numberKey 4) (numberKey n)" if "1 \<le> n \<and> n \<le> moduleCount 4" for n
  proof -
    from that have "1 \<le> n" "n \<le> 4"
      by (simp_all add: moduleCount_def)
    then consider "n = 1" | "n = 2" | "n = 3" | "n = 4"
      by linarith
    then show ?thesis
      using a by cases (auto simp: isModuleComplete_set_True [OF v])
  qed
  then show "isMissionComplete (snd (setModuleCompletion now (numberKey 4) (numberKey 4) True q))
          (numberKey 4)"
    by (simp add: isMissionComplete_numberKey)
qed

theorem isMissionComplete_iff_every_module_witness:
  "(1::int) \<le> 4 \<and> (4::int) \<le> 5
   \<and> isModuleComplete three (numberKey 4) (numberKey 1)
   \<and> isModuleComplete three (numberKey 4) (numberKey 2)
   \<and> isModuleComplete three (numberKey 4) (numberKey 3)
   \<and> \<not> isModuleComplete three (numberKey 4) (numberKey 4)
   \<and> (0::int) < 1700000000000
   \<and> \<not> isMissionComplete three (numberKey 4)
   \<and> isMissionComplete (snd (setModuleCompletion 1700000000000 (numberKey 4) (numberKey 4) True three))
        (numberKey 4)"
proof -
  have h: "isModuleComplete three (numberKey 4) (numberKey 1)
        \<and> isModuleComplete three (numberKey 4) (numberKey 2)
        \<and> isModuleComplete three (numberKey 4) (numberKey 3)
        \<and> \<not> isModuleComplete three (numberKey 4) (numberKey 4)
        \<and> (0::int) < 1700000000000"
    by (simp add: three_def isModuleComplete_def isValidMissionModule_def isValidMission_def
        parseInt_def radixDigit_def digitValue_def isStrWhiteSpaceChar_def
        totalMissions_def modulesPerMission_def numberKey_def digitsOf.simps js_def)
  have "\<not> isMissionComplete three (numberKey 4)
      \<and> isMissionComplete
           (snd (setModuleCompletion 1700000000000 (numberKey 4) (numberKey 4) True three))
           (numberKey 4)"
    using isMissionComplete_iff_every_module [of 4 three three 1700000000000, THEN conjunct2] h
    by (rule mp)
  with h show ?thesis by simp
qed

section \<open>The next recommended module\<close>

lemma firstIncompleteFrom_None:
  "firstIncompleteFrom p m k (Some mx) = None \<longleftrightarrow>
   (\<forall>n. k \<le> n \<and> n \<le> mx \<longrightarrow> isModuleComplete p (numberKey m) (numberKey n))"
proof (induction "nat (mx + 1 - k)" arbitrary: k)
  case 0
  then have "\<not> k \<le> mx" by simp
  then show ?case by (auto simp: firstIncompleteFrom.simps [of p m k])
next
  case (Suc d)
  then have le: "k \<le> mx" and d: "d = nat (mx + 1 - (k + 1))" by simp_all
  show ?case
  proof (cases "isModuleComplete p (numberKey m) (numberKey k)")
    case False
    with le show ?thesis by (auto simp: firstIncompleteFrom.simps [of p m k])
  next
    case True
    have "firstIncompleteFrom p m k (Some mx) = firstIncompleteFrom p m (k + 1) (Some mx)"
      using le True by (simp add: firstIncompleteFrom.simps [of p m k])
    moreover have "(\<forall>n. k + 1 \<le> n \<and> n \<le> mx \<longrightarrow> isModuleComplete p (numberKey m) (numberKey n))
        \<longleftrightarrow> (\<forall>n. k \<le> n \<and> n \<le> mx \<longrightarrow> isModuleComplete p (numberKey m) (numberKey n))"
    proof
      assume h: "\<forall>n. k + 1 \<le> n \<and> n \<le> mx \<longrightarrow> isModuleComplete p (numberKey m) (numberKey n)"
      show "\<forall>n. k \<le> n \<and> n \<le> mx \<longrightarrow> isModuleComplete p (numberKey m) (numberKey n)"
      proof (intro allI impI)
        fix n assume "k \<le> n \<and> n \<le> mx"
        then consider "n = k" | "k + 1 \<le> n \<and> n \<le> mx" by linarith
        then show "isModuleComplete p (numberKey m) (numberKey n)"
          using True h by cases auto
      qed
    qed auto
    ultimately show ?thesis using Suc(1) [OF d] by simp
  qed
qed

lemma firstIncompleteFrom_Some:
  "firstIncompleteFrom p m k (Some mx) = Some (a, b) \<Longrightarrow>
   a = m \<and> k \<le> b \<and> b \<le> mx \<and> \<not> isModuleComplete p (numberKey m) (numberKey b)"
proof (induction "nat (mx + 1 - k)" arbitrary: k)
  case 0
  then have "\<not> k \<le> mx" by simp
  with 0 show ?case by (simp add: firstIncompleteFrom.simps [of p m k])
next
  case (Suc d)
  then have le: "k \<le> mx" and d: "d = nat (mx + 1 - (k + 1))" by simp_all
  show ?case
  proof (cases "isModuleComplete p (numberKey m) (numberKey k)")
    case False
    with le Suc(3) show ?thesis by (simp add: firstIncompleteFrom.simps [of p m k])
  next
    case True
    then have "firstIncompleteFrom p m (k + 1) (Some mx) = Some (a, b)"
      using le Suc(3) by (simp add: firstIncompleteFrom.simps [of p m k])
    from Suc(1) [OF d this] show ?thesis by simp
  qed
qed

lemma recommendFrom_None:
  assumes "1 \<le> k"
  shows "recommendFrom p k = None \<longleftrightarrow>
   (\<forall>m n. k \<le> m \<and> m \<le> 5 \<and> 1 \<le> n \<and> n \<le> moduleCount m \<longrightarrow>
      isModuleComplete p (numberKey m) (numberKey n))"
  using assms
proof (induction "nat (6 - k)" arbitrary: k)
  case 0
  then have "\<not> k \<le> 5" by simp
  then show ?case by (auto simp: recommendFrom.simps [of p k] totalMissions_def)
next
  case (Suc d)
  then have le: "k \<le> 5" and d: "d = nat (6 - (k + 1))" and k1: "1 \<le> k + 1" by simp_all
  have mm: "map_of modulesPerMission (numberKey k) = Some (moduleCount k)"
    using Suc(3) le by (rule maxModules_numberKey)
  show ?case
  proof (cases "firstIncompleteFrom p k 1 (Some (moduleCount k))")
    case None
    then have here: "\<forall>n. 1 \<le> n \<and> n \<le> moduleCount k \<longrightarrow> isModuleComplete p (numberKey k) (numberKey n)"
      by (simp add: firstIncompleteFrom_None)
    have "recommendFrom p k = recommendFrom p (k + 1)"
      using le None mm by (simp add: recommendFrom.simps [of p k] totalMissions_def)
    moreover have "(\<forall>m n. k + 1 \<le> m \<and> m \<le> 5 \<and> 1 \<le> n \<and> n \<le> moduleCount m \<longrightarrow>
          isModuleComplete p (numberKey m) (numberKey n))
       \<longleftrightarrow> (\<forall>m n. k \<le> m \<and> m \<le> 5 \<and> 1 \<le> n \<and> n \<le> moduleCount m \<longrightarrow>
          isModuleComplete p (numberKey m) (numberKey n))"
    proof
      assume h: "\<forall>m n. k + 1 \<le> m \<and> m \<le> 5 \<and> 1 \<le> n \<and> n \<le> moduleCount m \<longrightarrow>
          isModuleComplete p (numberKey m) (numberKey n)"
      show "\<forall>m n. k \<le> m \<and> m \<le> 5 \<and> 1 \<le> n \<and> n \<le> moduleCount m \<longrightarrow>
          isModuleComplete p (numberKey m) (numberKey n)"
      proof (intro allI impI)
        fix m n assume a: "k \<le> m \<and> m \<le> 5 \<and> 1 \<le> n \<and> n \<le> moduleCount m"
        then consider "m = k" | "k + 1 \<le> m" by linarith
        then show "isModuleComplete p (numberKey m) (numberKey n)"
          using a h here by cases auto
      qed
    qed auto
    ultimately show ?thesis using Suc(1) [OF d k1] by simp
  next
    case (Some found)
    obtain a b where ab: "found = (a, b)" by (cases found)
    from Some ab have "a = k \<and> 1 \<le> b \<and> b \<le> moduleCount k
        \<and> \<not> isModuleComplete p (numberKey k) (numberKey b)"
      using firstIncompleteFrom_Some [of p k 1 "moduleCount k" a b] by simp
    moreover have "recommendFrom p k = Some found"
      using le Some mm by (simp add: recommendFrom.simps [of p k] totalMissions_def)
    ultimately show ?thesis using le by auto
  qed
qed

lemma recommendFrom_Some:
  assumes "1 \<le> k" "recommendFrom p k = Some (a, b)"
  shows "k \<le> a \<and> a \<le> 5 \<and> 1 \<le> b \<and> b \<le> moduleCount a
         \<and> \<not> isModuleComplete p (numberKey a) (numberKey b)"
  using assms
proof (induction "nat (6 - k)" arbitrary: k)
  case 0
  then have "\<not> k \<le> 5" by simp
  with 0 show ?case by (simp add: recommendFrom.simps [of p k] totalMissions_def)
next
  case (Suc d)
  then have le: "k \<le> 5" and d: "d = nat (6 - (k + 1))" and k1: "1 \<le> k + 1" by simp_all
  have mm: "map_of modulesPerMission (numberKey k) = Some (moduleCount k)"
    using Suc(3) le by (rule maxModules_numberKey)
  show ?case
  proof (cases "firstIncompleteFrom p k 1 (Some (moduleCount k))")
    case None
    then have "recommendFrom p (k + 1) = Some (a, b)"
      using le mm Suc(4) by (simp add: recommendFrom.simps [of p k] totalMissions_def)
    from Suc(1) [OF d k1 this] show ?thesis by simp
  next
    case (Some found)
    then have "found = (a, b)"
      using le mm Suc(4) by (simp add: recommendFrom.simps [of p k] totalMissions_def)
    with Some have "a = k \<and> 1 \<le> b \<and> b \<le> moduleCount k
        \<and> \<not> isModuleComplete p (numberKey k) (numberKey b)"
      using firstIncompleteFrom_Some [of p k 1 "moduleCount k" a b] by simp
    with le show ?thesis by simp
  qed
qed

text \<open>
  C10. \<open>getNextRecommendedModule\<close> returns null exactly when all sixteen (mission, module)
  slots of the curriculum are complete; whenever it returns a pair, the pair is within the
  bounds and is incomplete.
\<close>

theorem getNextRecommendedModule_null_iff_all_complete:
  "(getNextRecommendedModule p = None \<longleftrightarrow>
      (\<forall>m n. inBounds m n \<longrightarrow> isModuleComplete p (numberKey m) (numberKey n)))
   \<and> (\<forall>m n. getNextRecommendedModule p = Some (m, n) \<longrightarrow>
         inBounds m n \<and> \<not> isModuleComplete p (numberKey m) (numberKey n))"
proof (intro conjI allI impI)
  show "getNextRecommendedModule p = None \<longleftrightarrow>
      (\<forall>m n. inBounds m n \<longrightarrow> isModuleComplete p (numberKey m) (numberKey n))"
    by (simp add: getNextRecommendedModule_def recommendFrom_None inBounds_def)
next
  fix m n assume "getNextRecommendedModule p = Some (m, n)"
  then have "recommendFrom p 1 = Some (m, n)" by (simp add: getNextRecommendedModule_def)
  from recommendFrom_Some [OF _ this] show "inBounds m n" by (simp add: inBounds_def)
next
  fix m n assume "getNextRecommendedModule p = Some (m, n)"
  then have "recommendFrom p 1 = Some (m, n)" by (simp add: getNextRecommendedModule_def)
  from recommendFrom_Some [OF _ this]
  show "\<not> isModuleComplete p (numberKey m) (numberKey n)" by simp
qed

lemmas evaluate =
  js_def parseInt_def radixDigit_def digitValue_def isStrWhiteSpaceChar_def numberKey_def
  digitsOf.simps modulesPerMission_def totalMissions_def outOfRange_def minimumDate_def
  isValidMission_def isValidMissionModule_def isModuleComplete_def

theorem getNextRecommendedModule_null_iff_all_complete_witness:
  "getNextRecommendedModule three = Some (1, 1) \<and> inBounds 1 1
   \<and> \<not> isModuleComplete three (numberKey 1) (numberKey 1)
   \<and> getNextRecommendedModule allDone = None \<and> inBounds 5 3
   \<and> isModuleComplete allDone (numberKey 5) (numberKey 3)"
proof -
  have a: "getNextRecommendedModule three = Some (1, 1)"
    by (simp add: getNextRecommendedModule_def recommendFrom.simps firstIncompleteFrom.simps
        three_def evaluate)
  have b: "getNextRecommendedModule allDone = None"
    by (simp add: getNextRecommendedModule_def recommendFrom.simps firstIncompleteFrom.simps
        allDone_def evaluate)
  have c: "inBounds 5 3" "inBounds 1 1"
    by (simp_all add: inBounds_def moduleCount_def)
  note t = getNextRecommendedModule_null_iff_all_complete
  from t [of three] a have "inBounds 1 1 \<and> \<not> isModuleComplete three (numberKey 1) (numberKey 1)"
    by blast
  moreover from t [of allDone] b c have "isModuleComplete allDone (numberKey 5) (numberKey 3)"
    by blast
  ultimately show ?thesis using a b c by simp
qed

section \<open>Navigation between modules\<close>

text \<open>
  C9. From a module of the curriculum, next and previous increment and decrement the module
  index within the mission; past the last module next goes to the first module of the next
  mission, before the first module previous goes to the last module of the previous
  mission; next from the last module of mission 5 and previous from module 1 of mission 1
  leave the current route as it is.
\<close>

theorem navigateModule_steps:
  assumes "inBounds m n"
  shows "(n < moduleCount m \<longrightarrow> navigateModule m n 1 r = ModuleRoute m (n + 1))
       \<and> (1 < n \<longrightarrow> navigateModule m n (- 1) r = ModuleRoute m (n - 1))
       \<and> (n = moduleCount m \<and> m < 5 \<longrightarrow> navigateModule m n 1 r = ModuleRoute (m + 1) 1)
       \<and> (n = 1 \<and> 1 < m \<longrightarrow>
            navigateModule m n (- 1) r = ModuleRoute (m - 1) (moduleCount (m - 1)))
       \<and> (m = 5 \<and> n = moduleCount 5 \<longrightarrow> navigateModule m n 1 r = r)
       \<and> (m = 1 \<and> n = 1 \<longrightarrow> navigateModule m n (- 1) r = r)"
  using assms
  by (auto simp: inBounds_def moduleCount_def navigateModule_def showModule_def Let_def
      split: if_splits)

theorem navigateModule_steps_witness:
  "inBounds 4 2 \<and> (2::int) < moduleCount 4 \<and> (1::int) < 2
   \<and> navigateModule 4 2 1 (ModuleRoute 4 2) = ModuleRoute 4 3
   \<and> navigateModule 4 2 (- 1) (ModuleRoute 4 2) = ModuleRoute 4 1
   \<and> inBounds 4 4 \<and> (4::int) = moduleCount 4 \<and> (4::int) < 5
   \<and> navigateModule 4 4 1 (ModuleRoute 4 4) = ModuleRoute 5 1
   \<and> inBounds 5 1 \<and> (1::int) < 5
   \<and> navigateModule 5 1 (- 1) (ModuleRoute 5 1) = ModuleRoute 4 4
   \<and> inBounds 5 3 \<and> (3::int) = moduleCount 5
   \<and> navigateModule 5 3 1 (ModuleRoute 5 3) = ModuleRoute 5 3
   \<and> inBounds 1 1
   \<and> navigateModule 1 1 (- 1) (ModuleRoute 1 1) = ModuleRoute 1 1"
proof -
  have b: "inBounds 4 2" "inBounds 4 4" "inBounds 5 1" "inBounds 5 3" "inBounds 1 1"
    by (simp_all add: inBounds_def moduleCount_def)
  have c: "moduleCount 4 = 4" "moduleCount 5 = 3"
    by (simp_all add: moduleCount_def)
  show ?thesis
    using navigateModule_steps [OF b(1), of "ModuleRoute 4 2"]
      navigateModule_steps [OF b(2), of "ModuleRoute 4 4"]
      navigateModule_steps [OF b(3), of "ModuleRoute 5 1"]
      navigateModule_steps [OF b(4), of "ModuleRoute 5 3"]
      navigateModule_steps [OF b(5), of "ModuleRoute 1 1"]
    by (simp add: b c)
qed

section \<open>What import rejects, and what it lets through\<close>

lemma isValidTimestamp_acceptable: "isValidTimestamp now t \<Longrightarrow> timestampAcceptable now t"
  by (induction now t rule: isValidTimestamp.induct) simp_all

lemma validModuleEntries_all:
  assumes "validModuleEntries now (Some mx) es" "(moduleKey, t) \<in> set es"
  shows "(\<exists>n. parseInt moduleKey = Some n \<and> 1 \<le> n \<and> n \<le> mx) \<and> isValidTimestamp now t"
  using assms
proof (induction es)
  case Nil
  then show ?case by simp
next
  case (Cons e es)
  obtain k v where e: "e = (k, v)" by (cases e)
  from Cons.prems(1) e have
    h: "\<not> outOfRange (parseInt k) (Some mx)" "isValidTimestamp now v" "validModuleEntries now (Some mx) es"
    by (auto split: if_splits)
  show ?case
  proof (cases "(moduleKey, t) = e")
    case True
    with e h show ?thesis
      by (cases "parseInt k") (auto simp: outOfRange_def)
  next
    case False
    with Cons.prems(2) have "(moduleKey, t) \<in> set es" by simp
    from Cons.IH [OF h(3) this] show ?thesis .
  qed
qed

lemma validMissionEntries_all:
  assumes "validMissionEntries now es" "(missionKey, ms) \<in> set es"
  shows "\<exists>m. parseInt missionKey = Some m \<and> 1 \<le> m \<and> m \<le> 5
             \<and> validModuleEntries now (Some (moduleCount m)) (entries ms)"
  using assms
proof (induction es)
  case Nil
  then show ?case by simp
next
  case (Cons e es)
  obtain k v where e: "e = (k, v)" by (cases e)
  from Cons.prems(1) e obtain m where
    m: "parseInt k = Some m" "\<not> outOfRange (Some m) (Some totalMissions)"
       "validModuleEntries now (map_of modulesPerMission (numberKey m)) (entries v)"
       "validMissionEntries now es"
    by (auto split: option.splits if_splits)
  from m(2) have r: "1 \<le> m" "m \<le> 5"
    by (auto simp: outOfRange_def totalMissions_def)
  show ?case
  proof (cases "(missionKey, ms) = e")
    case True
    with e m r show ?thesis by (simp add: maxModules_numberKey)
  next
    case False
    with Cons.prems(2) have "(missionKey, ms) \<in> set es" by simp
    from Cons.IH [OF m(4) this] show ?thesis .
  qed
qed

lemma valid_no_violation:
  assumes "isValidProgressData now candidate"
  shows "\<not> violation now candidate"
proof
  assume "violation now candidate"
  then obtain missionKey ms where
    e: "(missionKey, ms) \<in> set (entries candidate)" and
    v: "missionKeyOutside missionKey
        \<or> (\<exists>(moduleKey, timestamp) \<in> set (entries ms).
              moduleKeyOutside missionKey moduleKey \<or> \<not> timestampAcceptable now timestamp)"
    by (auto simp: violation_def)
  from assms have "validMissionEntries now (entries candidate)"
    by (simp add: isValidProgressData_def split: if_splits)
  from validMissionEntries_all [OF this e] obtain m where
    m: "parseInt missionKey = Some m" "1 \<le> m" "m \<le> 5"
       "validModuleEntries now (Some (moduleCount m)) (entries ms)"
    by blast
  from m have "\<not> missionKeyOutside missionKey"
    by (simp add: missionKeyOutside_def)
  with v obtain moduleKey timestamp where
    f: "(moduleKey, timestamp) \<in> set (entries ms)" and
    w: "moduleKeyOutside missionKey moduleKey \<or> \<not> timestampAcceptable now timestamp"
    by auto
  from validModuleEntries_all [OF m(4) f] obtain n where
    n: "parseInt moduleKey = Some n" "1 \<le> n" "n \<le> moduleCount m" "isValidTimestamp now timestamp"
    by blast
  from n m have "\<not> moduleKeyOutside missionKey moduleKey"
    by (simp add: moduleKeyOutside_def)
  moreover from n(4) have "timestampAcceptable now timestamp"
    by (rule isValidTimestamp_acceptable)
  ultimately show False using w by simp
qed

text \<open>
  With keys read by \<open>parseInt\<close>, every violation makes \<open>importProgress\<close> return false and
  leave the record as it was.
\<close>

lemma importProgress_rejects_parsed_violation:
  assumes "violation now candidate"
  shows "importProgress now candidate p = (False, p)"
proof -
  from assms have "\<not> isValidProgressData now candidate"
    using valid_no_violation by blast
  then show ?thesis by (simp add: importProgress_def)
qed

text \<open>
  C5 does not hold of the code. The module key \<open>3.5\<close> is none of the module keys of mission
  1 and the mission key \<open>1e+21\<close> is none of the mission keys, yet \<open>parseInt\<close> reads them as 3
  and 1: \<open>importProgress\<close> returns true and stores the payload, keys as given, in place of
  the record that was there.
\<close>

theorem importProgress_accepts_fraction_key:
  "js ''3.5'' \<notin> set (moduleKeys 1)
   \<and> importProgress 1700000000000
        (JObj [(js ''1'', JObj [(js ''3.5'', JNum (Fin 1600000000000))])]) three
      = (True, [(js ''1'', [(js ''3.5'', JNum (Fin 1600000000000))])])
   \<and> js ''1e+21'' \<notin> set missionKeys
   \<and> importProgress 1700000000000
        (JObj [(js ''1e+21'', JObj [(js ''1'', JNum (Fin 1600000000000))])]) three
      = (True, [(js ''1e+21'', [(js ''1'', JNum (Fin 1600000000000))])])"
  by (simp add: moduleKeys_def missionKeys_def moduleCount_def upto.simps importProgress_def
      isValidProgressData_def asProgress_def evaluate)

section \<open>Loading a persisted record\<close>

text \<open>
  C3 does not hold of the code. The stored record has module 1 of mission 1, valid, beside
  an entry for module 9: \<open>loadProgress\<close> finds the record invalid and resets it, so the valid
  sibling is lost, and \<open>init\<close> ends with the empty record. The same happens when the sibling
  entry has a timestamp in the future. \<open>validateProgress\<close>, run on the same records, does
  what the claim says: it deletes the one bad entry and keeps module 1.
\<close>

theorem loadProgress_discards_valid_sibling:
  "isValidTimestamp 1700000000000 (JNum (Fin 1600000000000))
   \<and> loadProgress 1700000000000 (Parsed withModuleNine) [] = []
   \<and> init 1700000000000 (Parsed withModuleNine) [] = []
   \<and> validateProgress 1700000000000 (asProgress withModuleNine)
      = [(js ''1'', [(js ''1'', JNum (Fin 1600000000000))])]
   \<and> loadProgress 1700000000000 (Parsed withFutureTimestamp) [] = []
   \<and> init 1700000000000 (Parsed withFutureTimestamp) [] = []
   \<and> validateProgress 1700000000000 (asProgress withFutureTimestamp)
      = [(js ''1'', [(js ''1'', JNum (Fin 1600000000000))])]"
  by (simp add: withModuleNine_def withFutureTimestamp_def loadProgress_def init_def
      validateProgress_def isValidProgressData_def asProgress_def evaluate)

section \<open>Export and import\<close>

text \<open>
  C1, as stated, fails: on an empty store the result of \<open>exportProgress\<close> is the envelope
  \<open>{data, exportedAt, version}\<close>, and \<open>importProgress\<close> does not accept it.
\<close>

theorem import_rejects_export_of_empty_store:
  "\<not> fst (importProgress 1700000000000 (exportProgress 1700000000000 []) [])"
  by (simp add: importProgress_def exportProgress_def isValidProgressData_def asValue_def evaluate)

lemma parseInt_data: "parseInt (js ''data'') = None"
  by (simp add: evaluate)

text \<open>
  C1, as amended. For every store whose progress record is empty, at any time of export and
  of import: \<open>importProgress\<close> accepts the \<open>data\<close> field of what \<open>exportProgress\<close> returned and
  reproduces the empty record; handed the export itself it returns false and the record
  stays empty.
\<close>

theorem import_accepts_data_of_export_of_empty_store:
  "importProgress now (getProperty (exportProgress exportedAt []) (js ''data'')) [] = (True, [])
   \<and> importProgress now (exportProgress exportedAt []) [] = (False, [])"
  by (simp add: importProgress_def exportProgress_def isValidProgressData_def asValue_def
      asProgress_def getProperty_def parseInt_data)

theorem import_accepts_data_of_export_of_empty_store_witness:
  "importProgress 1700000000000
     (getProperty (exportProgress 1690000000000 []) (js ''data'')) [] = (True, [])
   \<and> importProgress 1700000000000 (exportProgress 1690000000000 []) [] = (False, [])"
  using import_accepts_data_of_export_of_empty_store [of 1700000000000 1690000000000]
  by simp

section \<open>The sanitizer and several handlers on one element\<close>

text \<open>
  C2 does not hold of the code. On an element with the attributes \<open>src\<close>, \<open>onerror\<close>, \<open>onload\<close>
  the loop removes \<open>onerror\<close> at position 1, moves on to position 2 of the shortened list, and
  never looks at \<open>onload\<close>: the result still carries an \<open>on\<close> attribute.
\<close>

theorem sanitizeHTML_keeps_second_handler:
  "sanitizeHTML twoHandlers = [Element ''img'' [(''src'', ''x''), (''onload'', ''alert(2)'')] []]
   \<and> hasOnAttribute (Element ''img'' [(''src'', ''x''), (''onload'', ''alert(2)'')] [])"
  by (simp add: sanitizeHTML_def twoHandlers_def dangerousTags_def stripOnAttributes.simps)

section \<open>The record invariants and import\<close>

text \<open>
  C4 does not hold of the code. The empty record satisfies the invariants;
  \<open>importProgress({"1": {}})\<close> is accepted and leaves a mission entry with no module entry.
\<close>

theorem importProgress_keeps_empty_mission:
  "recordInvariant 1700000000000 []
   \<and> importProgress 1700000000000 (JObj [(js ''1'', JObj [])]) [] = (True, [(js ''1'', [])])
   \<and> \<not> recordInvariant 1700000000000 [(js ''1'', [])]"
  by (simp add: recordInvariant_def importProgress_def isValidProgressData_def asProgress_def
      evaluate)

theorem importProgress_keeps_empty_mission_witness:
  "fst (importProgress 1700000000000 (JObj [(js ''1'', JObj [])]) [])
   \<and> map_of (snd (importProgress 1700000000000 (JObj [(js ''1'', JObj [])]) [])) (js ''1'') = Some []"
  using importProgress_keeps_empty_mission by simp

section \<open>Arguments that are not in-range integers\<close>

text \<open>
  C6 does not hold of the code. Module \<open>3.5\<close> is outside 1..3 and mission \<open>1e21\<close> (printed
  \<open>1e+21\<close>) is outside 1..5, yet \<open>parseInt\<close> reads them as 3 and 1:
  \<open>setModuleCompletion\<close> returns true and stores an entry under the key as given, and
  \<open>isModuleComplete(1, 3.5)\<close> then returns true.
\<close>

theorem setModuleCompletion_accepts_fraction:
  "setModuleCompletion 1700000000000 (js ''1'') (js ''3.5'') True []
     = (True, [(js ''1'', [(js ''3.5'', JNum (Fin 1700000000000))])])
   \<and> isModuleComplete [(js ''1'', [(js ''3.5'', JNum (Fin 1700000000000))])] (js ''1'') (js ''3.5'')
   \<and> setModuleCompletion 1700000000000 (js ''1e+21'') (js ''1'') True []
     = (True, [(js ''1e+21'', [(js ''1'', JNum (Fin 1700000000000))])])"
  by (simp add: setModuleCompletion_def evaluate)

section \<open>What holds beside the claims that fail\<close>

text \<open>
  Outside the contents of \<open>template\<close> elements the sanitizer does remove every \<open>script\<close>,
  \<open>object\<close>, \<open>embed\<close> and \<open>iframe\<close> element, at any depth. Inside a \<open>template\<close> it removes
  nothing.
\<close>

lemma removeDangerous_clean:
  "\<not> matchesDangerous n \<Longrightarrow> \<not> dangerousOutsideTemplates (removeDangerous n)"
  by (induction n) auto

lemma stripElements_dangerousOutsideTemplates:
  "dangerousOutsideTemplates (stripElements n) = dangerousOutsideTemplates n"
  by (induction n) auto

lemma sanitizeHTML_no_dangerous_element_outside_templates:
  "n \<in> set (sanitizeHTML html) \<Longrightarrow> \<not> dangerousOutsideTemplates n"
  by (auto simp: sanitizeHTML_def stripElements_dangerousOutsideTemplates removeDangerous_clean)

lemma sanitizeHTML_keeps_template_contents:
  "sanitizeHTML [Template [] [Element ''script'' [] [Text ''alert(1)'']]]
     = [Template [] [Element ''script'' [] [Text ''alert(1)'']]]
   \<and> containsDangerous (Template [] [Element ''script'' [] [Text ''alert(1)'']])"
  by (simp add: sanitizeHTML_def dangerousTags_def stripOnAttributes.simps)

text \<open>
  For integer arguments, printed in decimal, \<open>setModuleCompletion\<close> and \<open>isModuleComplete\<close>
  do reject every pair outside the bounds.
\<close>

lemma setModuleCompletion_rejects_integers_out_of_bounds:
  assumes "\<not> inBounds m n"
  shows "setModuleCompletion now (numberKey m) (numberKey n) completed p = (False, p)
         \<and> \<not> isModuleComplete p (numberKey m) (numberKey n)"
  using assms
  by (simp add: setModuleCompletion_def isModuleComplete_def isValidMissionModule_numberKey)

text \<open>
  The round trip through the \<open>data\<close> field holds for every record that passes validation,
  and the export itself is rejected whatever the record.
\<close>

lemma asProgress_asValue: "asProgress (asValue p) = p"
  by (induction p) (auto simp: asProgress_def asValue_def)

lemma import_data_of_export:
  assumes "isValidProgressData now (asValue p)"
  shows "importProgress now (getProperty (exportProgress exportedAt p) (js ''data'')) q = (True, p)"
  using assms
  by (simp add: importProgress_def exportProgress_def getProperty_def asProgress_asValue)

lemma import_rejects_export:
  "importProgress now (exportProgress exportedAt p) q = (False, q)"
  by (simp add: importProgress_def exportProgress_def isValidProgressData_def parseInt_data)

text \<open>
  With keys read by \<open>parseInt\<close>, \<open>setModuleCompletion\<close> preserves the record invariants for
  every argument, as long as the clock is past the floor date; it is \<open>importProgress\<close> that
  lets an empty mission entry in.
\<close>

lemma in_set_update: "x \<in> set (AList.update k v al) \<Longrightarrow> x \<in> set al \<or> x = (k, v)"
  by (induction al) (auto split: if_splits)

lemma in_set_delete: "x \<in> set (AList.delete k al) \<Longrightarrow> x \<in> set al"
  by (simp add: AList.delete_eq)

lemma isValidMissionModule_inside:
  assumes "isValidMissionModule mission modul"
  shows "\<not> missionKeyOutside mission \<and> \<not> moduleKeyOutside mission modul"
proof -
  from assms obtain m n where
    m: "parseInt mission = Some m" "1 \<le> m" "m \<le> 5" and
    n: "parseInt modul = Some n"
    by (auto simp: isValidMissionModule_def isValidMission_def totalMissions_def
        split: if_splits option.splits)
  from assms m n have "1 \<le> n \<and> n \<le> moduleCount m"
    by (simp add: isValidMissionModule_def isValidMission_def totalMissions_def
        maxModules_numberKey)
  with m n show ?thesis
    by (simp add: missionKeyOutside_def moduleKeyOutside_def)
qed


lemma ball_update:
  assumes "\<forall>x \<in> set al. Q x" "Q (k, v)"
  shows "\<forall>x \<in> set (AList.update k v al). Q x"
proof
  fix x assume "x \<in> set (AList.update k v al)"
  then have "x \<in> set al \<or> x = (k, v)" by (rule in_set_update)
  with assms show "Q x" by auto
qed

lemma ball_delete:
  assumes "\<forall>x \<in> set al. Q x"
  shows "\<forall>x \<in> set (AList.delete k al). Q x"
proof
  fix x assume "x \<in> set (AList.delete k al)"
  then have "x \<in> set al" by (rule in_set_delete)
  with assms show "Q x" by auto
qed

lemma recordInvariant_update:
  assumes "recordInvariant now p" "\<not> missionKeyOutside mission" "ms \<noteq> []"
    "\<forall>(moduleKey, timestamp) \<in> set ms.
        \<not> moduleKeyOutside mission moduleKey \<and> isValidTimestamp now timestamp"
  shows "recordInvariant now (AList.update mission ms p)"
  using assms unfolding recordInvariant_def
  by (intro ball_update) simp_all

lemma recordInvariant_delete:
  assumes "recordInvariant now p"
  shows "recordInvariant now (AList.delete mission p)"
  using assms unfolding recordInvariant_def
  by (rule ball_delete)

lemma recordInvariant_lookup:
  assumes "recordInvariant now p" "map_of p mission = Some ms"
  shows "\<forall>(moduleKey, timestamp) \<in> set ms.
        \<not> moduleKeyOutside mission moduleKey \<and> isValidTimestamp now timestamp"
proof -
  from assms(2) have "(mission, ms) \<in> set p" by (rule map_of_SomeD)
  with assms(1) have "case (mission, ms) of (missionKey, ms) \<Rightarrow>
      \<not> missionKeyOutside missionKey \<and> ms \<noteq> []
      \<and> (\<forall>(moduleKey, timestamp) \<in> set ms.
            \<not> moduleKeyOutside missionKey moduleKey \<and> isValidTimestamp now timestamp)"
    unfolding recordInvariant_def by (rule bspec)
  then show ?thesis by simp
qed


lemma setModuleCompletion_preserves_invariant:
  assumes inv: "recordInvariant now p" and clock: "minimumDate < real_of_int now"
  shows "recordInvariant now (snd (setModuleCompletion now mission modul completed p))"
proof (cases "isValidMissionModule mission modul")
  case False
  with inv show ?thesis by (simp add: setModuleCompletion_def)
next
  case True
  note inside = isValidMissionModule_inside [OF True]
  let ?ts = "JNum (Fin (real_of_int now))"
  have ts: "isValidTimestamp now ?ts"
    using clock by (simp add: minimumDate_def)
  have new: "\<not> moduleKeyOutside mission modul \<and> isValidTimestamp now ?ts"
    using inside ts by simp
  show ?thesis
  proof (cases "map_of p mission")
    case None
    show ?thesis
    proof (cases completed)
      case False
      with None True inv show ?thesis by (simp add: setModuleCompletion_def)
    next
      case c: True
      have "recordInvariant now (AList.update mission [(modul, ?ts)] p)"
        using inv inside new by (intro recordInvariant_update) simp_all
      with None True c show ?thesis by (simp add: setModuleCompletion_def)
    qed
  next
    case (Some ms)
    note old = recordInvariant_lookup [OF inv Some]
    show ?thesis
    proof (cases completed)
      case c: True
      have ne: "AList.update modul ?ts ms \<noteq> []" by (cases ms) auto
      have each: "\<forall>(moduleKey, timestamp) \<in> set (AList.update modul ?ts ms).
          \<not> moduleKeyOutside mission moduleKey \<and> isValidTimestamp now timestamp"
        using old new by (intro ball_update) simp_all
      have "recordInvariant now (AList.update mission (AList.update modul ?ts ms) p)"
        using inv inside ne each by (intro recordInvariant_update) simp_all
      with Some True c show ?thesis by (simp add: setModuleCompletion_def)
    next
      case c: False
      show ?thesis
      proof (cases "AList.delete modul ms = []")
        case e: True
        have "recordInvariant now (AList.delete mission p)"
          using inv by (rule recordInvariant_delete)
        with Some True c e show ?thesis
          by (simp add: setModuleCompletion_def)
      next
        case ne: False
        have each: "\<forall>(moduleKey, timestamp) \<in> set (AList.delete modul ms).
            \<not> moduleKeyOutside mission moduleKey \<and> isValidTimestamp now timestamp"
          using old by (rule ball_delete)
        have "recordInvariant now (AList.update mission (AList.delete modul ms) p)"
          using inv inside ne each by (intro recordInvariant_update) simp_all
        with Some True c ne show ?thesis
          by (simp add: setModuleCompletion_def)
      qed
    qed
  qed
qed

end
